theory Spec2Isabelle
  imports Main
begin

section \<open>Python values and their textual form\<close>

text \<open>
  The research results handled by \<^verbatim>\<open>streamlit_app.py\<close> are JSON-like Python values:
  a \<^verbatim>\<open>dict\<close> (insertion ordered, so an association list), a \<^verbatim>\<open>list\<close>, or anything
  else (a scalar). A character of a string is a code point below 256. A float carries the text Python's
  \<^verbatim>\<open>str\<close> gives for it (\<^verbatim>\<open>0.9\<close> is \<open>PyFloat ''0.9''\<close>): float formatting itself is
  not modelled.
\<close>

datatype scalar = PyNone | PyBool bool | PyInt int | PyFloat string | PyStr string

datatype pyval = Scalar scalar | PyList "pyval list" | PyDict "(string \<times> pyval) list"

abbreviation nl :: char where
  "nl \<equiv> CHR 0x0A"

abbreviation fence :: string where
  "fence \<equiv> [CHR 0x60, CHR 0x60, CHR 0x60]"

definition digit_char :: "nat \<Rightarrow> char" where
  "digit_char d = ''0123456789'' ! d"

fun digits :: "nat \<Rightarrow> string" where
  "digits n = (if n < 10 then [digit_char n] else digits (n div 10) @ [digit_char (n mod 10)])"

declare digits.simps [simp del]

text \<open>\<^verbatim>\<open>str(value)\<close>, which an f-string applies to a scalar.\<close>

fun py_str :: "scalar \<Rightarrow> string" where
  "py_str PyNone = ''None''"
| "py_str (PyBool b) = (if b then ''True'' else ''False'')"
| "py_str (PyInt i) = (if i < 0 then ''-'' @ digits (nat (- i)) else digits (nat i))"
| "py_str (PyFloat r) = r"
| "py_str (PyStr s) = s"

text \<open>\<^verbatim>\<open>marker in value\<close> on strings: \<open>marker\<close> occurs in \<open>value\<close> as a substring.\<close>

fun starts_with :: "string \<Rightarrow> string \<Rightarrow> bool" where
  "starts_with [] s = True"
| "starts_with (p # ps) [] = False"
| "starts_with (p # ps) (c # cs) = (p = c \<and> starts_with ps cs)"

fun str_in :: "string \<Rightarrow> string \<Rightarrow> bool" where
  "str_in marker [] = (marker = [])"
| "str_in marker (c # cs) = (starts_with marker (c # cs) \<or> str_in marker cs)"

section \<open>The Markdown export: \<^verbatim>\<open>dict_to_markdown\<close>\<close>

text \<open>\<^verbatim>\<open>indent = "  " * level\<close>\<close>

definition indent :: "nat \<Rightarrow> string" where
  "indent level = concat (replicate level ''  '')"

text \<open>
  \<^verbatim>\<open>isinstance(value, str) and any(marker in value for marker in ['###', '##', '#', '**', '-'])\<close>
\<close>

fun contains_markdown :: "scalar \<Rightarrow> bool" where
  "contains_markdown (PyStr s) =
     list_ex (\<lambda>marker. str_in marker s) [''###'', ''##'', ''#'', ''**'', ''-'']"
| "contains_markdown v = False"

text \<open>
  The function appends to the local \<^verbatim>\<open>md\<close> and returns it; \<open>dict_loop\<close> and
  \<open>list_loop\<close> are its two \<^verbatim>\<open>for\<close> loops, giving the text each appends. The function
  keeps no depth counter: \<open>level\<close> only grows the indentation.
\<close>

fun dict_to_markdown :: "pyval \<Rightarrow> nat \<Rightarrow> string"
  and dict_loop :: "(string \<times> pyval) list \<Rightarrow> nat \<Rightarrow> string"
  and list_loop :: "pyval list \<Rightarrow> nat \<Rightarrow> string" where
  "dict_to_markdown (PyDict d) level = dict_loop d level"
| "dict_to_markdown (PyList d) level = list_loop d level @ [nl]"
| "dict_to_markdown (Scalar d) level = indent level @ py_str d @ [nl, nl]"
| "dict_loop [] level = []"
| "dict_loop ((key, value) # rest) level =
     (case value of
        Scalar v \<Rightarrow>
          (if contains_markdown v
           then indent level @ ''### '' @ key @ [nl, nl] @ py_str v @ [nl, nl]
           else indent level @ ''### '' @ key @ [nl, nl] @ fence @ [nl] @ py_str v @ [nl] @ fence @ [nl, nl])
      | _ \<Rightarrow> indent level @ ''### '' @ key @ [nl, nl] @ dict_to_markdown value (level + 1))
     @ dict_loop rest level"
| "list_loop [] level = []"
| "list_loop (item # rest) level =
     (case item of
        Scalar v \<Rightarrow> indent level @ ''- '' @ py_str v @ [nl]
      | _ \<Rightarrow> dict_to_markdown item level)
     @ list_loop rest level"

text \<open>
  The same function with the interpreter's call stack made explicit: every call of
  \<^verbatim>\<open>dict_to_markdown\<close> takes one of the \<open>n\<close> frames that are left, and \<open>None\<close> is the
  \<^verbatim>\<open>RecursionError\<close> of a call that finds none.
\<close>

fun dict_to_markdown_stack :: "nat \<Rightarrow> pyval \<Rightarrow> nat \<Rightarrow> string option"
  and dict_loop_stack :: "nat \<Rightarrow> (string \<times> pyval) list \<Rightarrow> nat \<Rightarrow> string option"
  and list_loop_stack :: "nat \<Rightarrow> pyval list \<Rightarrow> nat \<Rightarrow> string option" where
  "dict_to_markdown_stack 0 d level = None"
| "dict_to_markdown_stack (Suc n) (PyDict d) level = dict_loop_stack n d level"
| "dict_to_markdown_stack (Suc n) (PyList d) level =
     (case list_loop_stack n d level of None \<Rightarrow> None | Some md \<Rightarrow> Some (md @ [nl]))"
| "dict_to_markdown_stack (Suc n) (Scalar d) level = Some (indent level @ py_str d @ [nl, nl])"
| "dict_loop_stack n [] level = Some []"
| "dict_loop_stack n ((key, value) # rest) level =
     (case (case value of
              Scalar v \<Rightarrow>
                Some (if contains_markdown v
                      then indent level @ ''### '' @ key @ [nl, nl] @ py_str v @ [nl, nl]
                      else indent level @ ''### '' @ key @ [nl, nl] @ fence @ [nl] @ py_str v @ [nl] @ fence @ [nl, nl])
            | _ \<Rightarrow>
                (case dict_to_markdown_stack n value (level + 1) of
                   None \<Rightarrow> None
                 | Some sub \<Rightarrow> Some (indent level @ ''### '' @ key @ [nl, nl] @ sub))) of
        None \<Rightarrow> None
      | Some md \<Rightarrow> (case dict_loop_stack n rest level of None \<Rightarrow> None | Some md' \<Rightarrow> Some (md @ md')))"
| "list_loop_stack n [] level = Some []"
| "list_loop_stack n (item # rest) level =
     (case (case item of
              Scalar v \<Rightarrow> Some (indent level @ ''- '' @ py_str v @ [nl])
            | _ \<Rightarrow> dict_to_markdown_stack n item level) of
        None \<Rightarrow> None
      | Some md \<Rightarrow> (case list_loop_stack n rest level of None \<Rightarrow> None | Some md' \<Rightarrow> Some (md @ md')))"

text \<open>The nesting depth of a value: the number of containers around its deepest part.\<close>

fun depth :: "pyval \<Rightarrow> nat"
  and depth_items :: "(string \<times> pyval) list \<Rightarrow> nat"
  and depth_list :: "pyval list \<Rightarrow> nat" where
  "depth (Scalar v) = 0"
| "depth (PyList xs) = Suc (depth_list xs)"
| "depth (PyDict kvs) = Suc (depth_items kvs)"
| "depth_items [] = 0"
| "depth_items ((key, value) # rest) = max (depth value) (depth_items rest)"
| "depth_list [] = 0"
| "depth_list (item # rest) = max (depth item) (depth_list rest)"

text \<open>A value nested \<open>n\<close> mappings deep around \<open>leaf\<close>: \<^verbatim>\<open>{"k": {"k": ... leaf}}\<close>.\<close>

fun nest :: "nat \<Rightarrow> pyval \<Rightarrow> pyval" where
  "nest 0 leaf = leaf"
| "nest (Suc n) leaf = PyDict [(''k'', nest n leaf)]"

text \<open>The heading lines \<^verbatim>\<open>### k\<close> of \<open>n\<close> successive levels, the first at \<open>level\<close>.\<close>

fun key_headings :: "nat \<Rightarrow> nat \<Rightarrow> string" where
  "key_headings level 0 = []"
| "key_headings level (Suc n) = indent level @ ''### k'' @ [nl, nl] @ key_headings (level + 1) n"

text \<open>
  The text that follows the heading of a mapping entry, and the text of one list
  element: the bodies of the two loops.
\<close>

definition entry_body :: "pyval \<Rightarrow> nat \<Rightarrow> string" where
  "entry_body value level =
     (case value of
        Scalar v \<Rightarrow>
          (if contains_markdown v then py_str v @ [nl, nl]
           else fence @ [nl] @ py_str v @ [nl] @ fence @ [nl, nl])
      | _ \<Rightarrow> dict_to_markdown value (level + 1))"

definition list_item :: "pyval \<Rightarrow> nat \<Rightarrow> string" where
  "list_item item level =
     (case item of
        Scalar v \<Rightarrow> indent level @ ''- '' @ py_str v @ [nl]
      | _ \<Rightarrow> dict_to_markdown item level)"

section \<open>Focus areas: \<^verbatim>\<open>[area.strip() for area in focus_areas.split(",")]\<close>\<close>

text \<open>
  \<^verbatim>\<open>s.split(sep)\<close> for a separator of one character: the segments between the
  separators, empty ones included.
\<close>

fun str_split :: "char \<Rightarrow> string \<Rightarrow> string list" where
  "str_split sep [] = [[]]"
| "str_split sep (c # cs) =
     (if c = sep then [] # str_split sep cs
      else (case str_split sep cs of [] \<Rightarrow> [[c]] | w # ws \<Rightarrow> (c # w) # ws))"

text \<open>
  \<^verbatim>\<open>str.strip()\<close> removes leading and trailing whitespace; the code points below 256
  for which \<^verbatim>\<open>str.isspace\<close> holds are tab, newline, vertical tab, form feed, carriage
  return, the separators 0x1C to 0x1F, the space, the next line 0x85 and the no-break
  space 0xA0.
\<close>

definition is_space :: "char \<Rightarrow> bool" where
  "is_space c = (c = CHR 0x09 \<or> c = CHR 0x0A \<or> c = CHR 0x0B \<or> c = CHR 0x0C \<or> c = CHR 0x0D
     \<or> c = CHR 0x1C \<or> c = CHR 0x1D \<or> c = CHR 0x1E \<or> c = CHR 0x1F \<or> c = CHR 0x20
     \<or> c = CHR 0x85 \<or> c = CHR 0xA0)"

definition strip :: "string \<Rightarrow> string" where
  "strip s = rev (dropWhile is_space (rev (dropWhile is_space s)))"

definition parse_focus_areas :: "string \<Rightarrow> string list" where
  "parse_focus_areas focus_areas = map strip (str_split CHR '','' focus_areas)"

text \<open>\<^verbatim>\<open>sep.join(parts)\<close>, to state what the split keeps.\<close>

fun str_join :: "char \<Rightarrow> string list \<Rightarrow> string" where
  "str_join sep [] = []"
| "str_join sep [w] = w"
| "str_join sep (w # v # ws) = w @ sep # str_join sep (v # ws)"

text \<open>
  The heading markers of a rendered text, to read the heading levels off it: for each
  line, the run of \<^verbatim>\<open>#\<close> that follows its indentation, where there is one.
\<close>

definition heading_marks :: "string \<Rightarrow> string list" where
  "heading_marks md =
     filter (\<lambda>m. m \<noteq> [])
       (map (\<lambda>line. takeWhile (\<lambda>c. c = CHR ''#'') (dropWhile (\<lambda>c. c = CHR '' '') line))
          (str_split nl md))"

definition task_notes :: "string \<Rightarrow> pyval" where
  "task_notes focus_areas =
     PyDict [
       (''focus_areas'', PyList (map (\<lambda>area. Scalar (PyStr area)) (parse_focus_areas focus_areas))),
       (''experiment_preferences'', PyDict [
          (''dataset_size'', Scalar (PyStr ''small'')),
          (''model_complexity'', Scalar (PyStr ''medium'')),
          (''evaluation_metrics'', PyList [Scalar (PyStr ''accuracy''), Scalar (PyStr ''perplexity'')])])]"

section \<open>The session state and the result store\<close>

text \<open>
  \<^verbatim>\<open>st.session_state.research_results\<close> is a \<^verbatim>\<open>dict\<close> from the timestamp of a research to
  \<^verbatim>\<open>{"topic": ..., "focus_areas": ..., "results": ...}\<close>. A Python \<^verbatim>\<open>dict\<close> keeps insertion
  order and its keys are unique, so it is an association list, and \<^verbatim>\<open>d[k] = v\<close>
  overwrites the value of a key that is there and appends one that is not.
\<close>

record research =
  topic :: string
  focus_areas :: string
  results :: pyval

type_synonym store = "(string \<times> research) list"

fun dict_set :: "('k \<times> 'v) list \<Rightarrow> 'k \<Rightarrow> 'v \<Rightarrow> ('k \<times> 'v) list" where
  "dict_set [] k v = [(k, v)]"
| "dict_set ((k', v') # rest) k v =
     (if k' = k then (k, v) # rest else (k', v') # dict_set rest k v)"

definition keys :: "('k \<times> 'v) list \<Rightarrow> 'k list" where
  "keys d = map fst d"

datatype view = new_research | view_research

text \<open>An attribute of the session state that is not set yet is \<open>None\<close>.\<close>

record session_state =
  research_results :: store
  api_key :: "string option"
  current_view :: "view option"
  selected_research :: "string option"

text \<open>What a run shows or calls outside the session state.\<close>

datatype event =
    StError string
  | LabCall string string pyval
  | SaveResults store
  | StRerun

subsection \<open>Loading the store (lines 46 to 56)\<close>





subsection \<open>\<^verbatim>\<open>conduct_research\<close> (lines 123 to 163)\<close>

text \<open>\<^verbatim>\<open>datetime.now().strftime("%Y-%m-%d %H:%M:%S")\<close>, for a clock whose year has four digits.\<close>

record datetime =
  year :: nat
  month :: nat
  day :: nat
  hour :: nat
  minute :: nat
  second :: nat
  microsecond :: nat

definition zero_pad :: "nat \<Rightarrow> nat \<Rightarrow> string" where
  "zero_pad w n = replicate (w - length (digits n)) CHR ''0'' @ digits n"

definition strftime :: "datetime \<Rightarrow> string" where
  "strftime dt =
     zero_pad 4 (year dt) @ ''-'' @ zero_pad 2 (month dt) @ ''-'' @ zero_pad 2 (day dt) @ '' ''
     @ zero_pad 2 (hour dt) @ '':'' @ zero_pad 2 (minute dt) @ '':'' @ zero_pad 2 (second dt)"

text \<open>
  \<open>lab key topic notes\<close> stands for \<^verbatim>\<open>AgentLaboratory(api_key=key, model_name="gpt-4o")\<close>
  followed by \<^verbatim>\<open>lab.conduct_research(topic, notes)\<close>: \<open>Inl\<close> is the text of the
  exception it raises, \<open>Inr\<close> its results. \<open>now\<close> is the clock read at line 146.
  \<^verbatim>\<open>save_results\<close> writes the store to the file and swallows every exception.
  \<^verbatim>\<open>st.rerun()\<close> ends the run of the script, so the \<^verbatim>\<open>return True, ...\<close> after it is
  not reached: the outcome of a successful call is \<open>Rerun\<close>.
\<close>

datatype outcome = Returned bool string | Rerun

definition conduct_research ::
  "(string \<Rightarrow> string \<Rightarrow> pyval \<Rightarrow> string + pyval) \<Rightarrow> datetime \<Rightarrow> session_state \<Rightarrow> string \<Rightarrow> string
     \<Rightarrow> session_state \<times> outcome \<times> event list" where
  "conduct_research lab now s topic' focus_areas' =
     (case api_key s of
        None \<Rightarrow>
          (s, Returned False ''API key required'',
           [StError ''Please enter your OpenAI API key in the sidebar first!''])
      | Some key \<Rightarrow>
          if key = []
          then (s, Returned False ''API key required'',
                [StError ''Please enter your OpenAI API key in the sidebar first!''])
          else
            (case lab key topic' (task_notes focus_areas') of
               Inl e \<Rightarrow>
                 (s, Returned False (''Error during research: '' @ e),
                  [LabCall key topic' (task_notes focus_areas')])
             | Inr results' \<Rightarrow>
                 (let timestamp = strftime now;
                      d = dict_set (research_results s) timestamp
                            \<lparr>topic = topic', focus_areas = focus_areas', results = results'\<rparr>
                  in (s\<lparr>research_results := d,
                         current_view := Some view_research,
                         selected_research := Some timestamp\<rparr>,
                      Rerun,
                      [LabCall key topic' (task_notes focus_areas'), SaveResults d, StRerun]))))"

subsection \<open>The sidebar (lines 84 to 109) and the main area (lines 166 to 198)\<close>

text \<open>
  A run of the script has at most one button that was clicked: \<^verbatim>\<open>st.button\<close> returns
  \<^verbatim>\<open>True\<close> for it and \<^verbatim>\<open>False\<close> for every other one. The sidebar draws one button for
  each stored research, with the timestamp as its key.
\<close>

datatype click = NoClick | NewResearchButton | ResearchButton string

fun sidebar_loop :: "click \<Rightarrow> store \<Rightarrow> session_state \<Rightarrow> session_state" where
  "sidebar_loop clicked [] s = s"
| "sidebar_loop clicked ((timestamp, research) # rest) s =
     sidebar_loop clicked rest
       (if clicked = ResearchButton timestamp
        then s\<lparr>current_view := Some view_research, selected_research := Some timestamp\<rparr>
        else s)"

definition sidebar :: "string \<Rightarrow> click \<Rightarrow> session_state \<Rightarrow> session_state" where
  "sidebar api_key_input clicked s =
     (let s1 = (if api_key_input \<noteq> [] then s\<lparr>api_key := Some api_key_input\<rparr> else s);
          s2 = (if clicked = NewResearchButton then s1\<lparr>current_view := Some new_research\<rparr> else s1)
      in if research_results s2 \<noteq> [] then sidebar_loop clicked (research_results s2) s2 else s2)"

text \<open>
  The main area (lines 166 to 198). A session with no \<^verbatim>\<open>current_view\<close> gets
  \<^verbatim>\<open>"new_research"\<close>; the form is shown for \<^verbatim>\<open>"new_research"\<close> (its submission is
  \<open>conduct_research\<close>, above); for \<^verbatim>\<open>"view_research"\<close>, under
  \<^verbatim>\<open>hasattr(st.session_state, 'selected_research')\<close>, the research is looked up by
  \<^verbatim>\<open>st.session_state.research_results[st.session_state.selected_research]\<close>, where a key
  that is not in the \<^verbatim>\<open>dict\<close> raises \<^verbatim>\<open>KeyError\<close>. Nothing else in these lines assigns to
  the session state. The function gives the session state after the lines and what
  they show or raise.
\<close>

datatype py_error = KeyError string

datatype page = NewResearchForm | ResearchResults research | NothingShown

definition main_area :: "session_state \<Rightarrow> session_state \<times> (py_error + page)" where
  "main_area s =
     (let s1 = (if current_view s = None then s\<lparr>current_view := Some new_research\<rparr> else s)
      in (s1,
          if current_view s1 = Some new_research then Inr NewResearchForm
          else if current_view s1 = Some view_research
          then (case selected_research s1 of
                  None \<Rightarrow> Inr NothingShown
                | Some ts \<Rightarrow>
                    (case map_of (research_results s1) ts of
                       None \<Rightarrow> Inl (KeyError ts)
                     | Some research \<Rightarrow> Inr (ResearchResults research)))
          else Inr NothingShown))"

text \<open>The selected research, when there is one, is a stored one.\<close>

definition selected_stored :: "session_state \<Rightarrow> bool" where
  "selected_stored s =
     (case selected_research s of
        None \<Rightarrow> True
      | Some ts \<Rightarrow> ts \<in> set (keys (research_results s)))"

subsection \<open>Concrete inputs\<close>

text \<open>
  A laboratory that succeeds, a \<^verbatim>\<open>json.load\<close> that raises on every content, a fresh
  session with an API key, and a clock reading.
\<close>

definition lab_ok :: "string \<Rightarrow> string \<Rightarrow> pyval \<Rightarrow> string + pyval" where
  "lab_ok key topic' notes = Inr (PyDict [(''summary'', Scalar (PyStr topic'))])"


definition session0 :: session_state where
  "session0 = \<lparr>research_results = [], api_key = Some ''sk-test'',
                current_view = Some new_research, selected_research = None\<rparr>"

definition noon :: datetime where
  "noon = \<lparr>year = 2024, month = 5, day = 17, hour = 12, minute = 0, second = 0, microsecond = 0\<rparr>"

section \<open>Properties of the Markdown export\<close>

subsection \<open>The two loops\<close>

lemma loops_append:
  "dict_loop (xs @ ys) level = dict_loop xs level @ dict_loop ys level"
  "list_loop (us @ vs) level = list_loop us level @ list_loop vs level"
   apply (induction xs)
    apply (auto split: pyval.splits)[2]
  apply (induction us)
   apply (auto split: pyval.splits)
  done

lemma dict_loop_entry:
  "dict_loop ((key, value) # rest) level =
     indent level @ ''### '' @ key @ [nl, nl] @ entry_body value level @ dict_loop rest level"
  by (simp add: entry_body_def split: pyval.splits)

lemma dict_entry_split:
  "dict_to_markdown (PyDict (before @ (key, value) # after)) level
     = dict_to_markdown (PyDict before) level
       @ indent level @ ''### '' @ key @ [nl, nl] @ entry_body value level
       @ dict_to_markdown (PyDict after) level"
proof -
  have "dict_loop (before @ (key, value) # after) level
      = dict_loop before level @ dict_loop ((key, value) # after) level"
    by (rule loops_append(1))
  then show ?thesis
    by (simp only: dict_to_markdown.simps(1) dict_loop_entry append_assoc)
qed

lemma list_loop_concat:
  "list_loop xs level = concat (map (\<lambda>item. list_item item level) xs)"
  by (induction xs) (simp_all add: list_item_def)

lemma indent_replicate: "indent level = replicate (2 * level) CHR '' ''"
  by (induction level) (simp_all add: indent_def)

subsection \<open>Termination\<close>

text \<open>
  A call stack with more frames than the value is deep is enough for every call the
  function makes: simultaneous induction over the function and its two loops, for
  every number of frames.
\<close>

lemma stack_enough:
  "depth d < n \<Longrightarrow> dict_to_markdown_stack n d level = Some (dict_to_markdown d level)"
  "depth_items kvs < n \<Longrightarrow> dict_loop_stack n kvs level = Some (dict_loop kvs level)"
  "depth_list xs < n \<Longrightarrow> list_loop_stack n xs level = Some (list_loop xs level)"
proof (induction d level and kvs level and xs level arbitrary: n and n and n
    rule: dict_to_markdown_dict_loop_list_loop.induct)
  case (1 d level)
  then show ?case by (cases n) simp_all
next
  case (2 d level)
  then show ?case by (cases n) simp_all
next
  case (3 d level)
  then show ?case by (cases n) simp_all
next
  case (4 level)
  then show ?case by simp
next
  case (5 key "value" rest level)
  then show ?case by (cases "value") simp_all
next
  case (6 level)
  then show ?case by simp
next
  case (7 item rest level)
  then show ?case by (cases item) simp_all
qed

subsection \<open>Deep values\<close>

lemma nest_dict:
  "dict_to_markdown (nest n (PyDict d)) level
     = key_headings level n @ dict_to_markdown (PyDict d) (level + n)"
proof (induction n arbitrary: level)
  case 0
  show ?case by simp
next
  case (Suc n)
  have "\<exists>d'. nest n (PyDict d) = PyDict d'" by (cases n) simp_all
  then obtain d' where d': "nest n (PyDict d) = PyDict d'" by blast
  have "dict_to_markdown (nest (Suc n) (PyDict d)) level
      = indent level @ ''### k'' @ [nl, nl] @ dict_to_markdown (nest n (PyDict d)) (level + 1)"
    by (simp add: d')
  then show ?case using Suc [of "level + 1"] by simp
qed

lemma nest_list:
  "dict_to_markdown (nest n (PyList xs)) level
     = key_headings level n @ dict_to_markdown (PyList xs) (level + n)"
proof (induction n arbitrary: level)
  case 0
  show ?case by simp
next
  case (Suc n)
  have "(\<exists>d'. nest n (PyList xs) = PyDict d') \<or> nest n (PyList xs) = PyList xs"
    by (cases n) simp_all
  then have "dict_to_markdown (nest (Suc n) (PyList xs)) level
      = indent level @ ''### k'' @ [nl, nl] @ dict_to_markdown (nest n (PyList xs)) (level + 1)"
    by auto
  then show ?case using Suc [of "level + 1"] by simp
qed

lemma stack_exhausted:
  "dict_to_markdown_stack n (nest n (PyDict d)) level = None"
proof (induction n arbitrary: level)
  case 0
  show ?case by simp
next
  case (Suc n)
  have "\<exists>d'. nest n (PyDict d) = PyDict d'" by (cases n) simp_all
  then obtain d' where d': "nest n (PyDict d) = PyDict d'" by blast
  show ?case using Suc [of "level + 1"] by (simp add: d')
qed

lemma stack_short:
  "frames \<le> n \<Longrightarrow> dict_to_markdown_stack frames (nest n (PyDict d)) level = None"
proof (induction frames arbitrary: n level)
  case 0
  show ?case by simp
next
  case (Suc frames)
  then obtain m where n: "n = Suc m" and m: "frames \<le> m" by (cases n) auto
  have "\<exists>d'. nest m (PyDict d) = PyDict d'" by (cases m) simp_all
  then obtain d' where d': "nest m (PyDict d) = PyDict d'" by blast
  show ?case using Suc.IH [OF m, of "level + 1"] by (simp add: n d')
qed

lemma depth_nest: "depth (nest n (PyDict d)) = n + depth (PyDict d)"
proof (induction n)
  case 0
  show ?case by simp
next
  case (Suc n)
  then show ?case by simp
qed

text \<open>
  C2, as the code has it. The renderer has no depth limit and no placeholder: a
  mapping or a list under \<open>n\<close> nested mappings is rendered in full, after the \<open>n\<close>
  headings of the mappings around it, for every \<open>n\<close>. The one limit is the call stack
  of the interpreter, and running out of it is an error, not a truncated text: on a
  stack with more frames than the value is deep the full text is returned, and on
  \<open>n\<close> frames or fewer the rendering of a mapping under \<open>n\<close> mappings does not return.
\<close>

theorem nested_mappings_rendered_in_full:
  "dict_to_markdown (nest n (PyDict d)) level
     = key_headings level n @ dict_to_markdown (PyDict d) (level + n)
   \<and> dict_to_markdown (nest n (PyList xs)) level
     = key_headings level n @ dict_to_markdown (PyList xs) (level + n)
   \<and> dict_to_markdown_stack n (nest n (PyDict d)) level = None
   \<and> (n + depth (PyDict d) < frames \<longrightarrow>
        dict_to_markdown_stack frames (nest n (PyDict d)) level
          = Some (key_headings level n @ dict_to_markdown (PyDict d) (level + n)))
   \<and> (frames \<le> n \<longrightarrow> dict_to_markdown_stack frames (nest n (PyDict d)) level = None)"
proof -
  have "n + depth (PyDict d) < frames \<Longrightarrow>
        dict_to_markdown_stack frames (nest n (PyDict d)) level
          = Some (key_headings level n @ dict_to_markdown (PyDict d) (level + n))"
    using stack_enough(1) [of "nest n (PyDict d)" frames level]
    by (simp add: depth_nest nest_dict)
  then show ?thesis
    by (simp add: nest_dict nest_list stack_exhausted stack_short)
qed

theorem nested_mappings_rendered_in_full_witness:
  "3 + depth (PyDict [(''leaf'', Scalar (PyInt 7))]) < 1000
   \<and> dict_to_markdown_stack 1000 (nest 3 (PyDict [(''leaf'', Scalar (PyInt 7))])) 0
       = Some (key_headings 0 3 @ dict_to_markdown (PyDict [(''leaf'', Scalar (PyInt 7))]) 3)
   \<and> (1000::nat) \<le> 1000
   \<and> dict_to_markdown_stack 1000 (nest 1000 (PyDict [(''leaf'', Scalar (PyInt 7))])) 0 = None"
  using nested_mappings_rendered_in_full [of 3 "[(''leaf'', Scalar (PyInt 7))]" 0 "[]" 1000]
    nested_mappings_rendered_in_full [of 1000 "[(''leaf'', Scalar (PyInt 7))]" 0 "[]" 1000]
  by simp

text \<open>
  No bound at 64: on the 1000 frames of Python's default recursion limit, a value 65
  mappings deep is rendered to its innermost entry, after the headings of all 64
  levels above it, with no placeholder.
\<close>

theorem depth_65_not_truncated:
  "depth (nest 64 (PyDict [(''leaf'', Scalar (PyInt 7))])) = 65
   \<and> dict_to_markdown_stack 1000 (nest 64 (PyDict [(''leaf'', Scalar (PyInt 7))])) 0
     = Some (key_headings 0 64 @ indent 64 @ ''### leaf'' @ [nl, nl]
             @ fence @ [nl] @ ''7'' @ [nl] @ fence @ [nl, nl])"
proof -
  have d: "depth (nest 64 (PyDict [(''leaf'', Scalar (PyInt 7))])) = 65"
    by (simp add: depth_nest)
  then have "depth (nest 64 (PyDict [(''leaf'', Scalar (PyInt 7))])) < 1000" by simp
  then have "dict_to_markdown_stack 1000 (nest 64 (PyDict [(''leaf'', Scalar (PyInt 7))])) 0
      = Some (dict_to_markdown (nest 64 (PyDict [(''leaf'', Scalar (PyInt 7))])) 0)"
    by (rule stack_enough(1))
  then show ?thesis
    using d by (simp add: nest_dict digits.simps digit_char_def)
qed

subsection \<open>Returning a text\<close>




subsection \<open>Headings\<close>

text \<open>
  C3, as the code has it. The heading of every key of a mapping is the indentation of
  the nesting level, then \<^verbatim>\<open>###\<close>, then the key: the marker is the same at every depth,
  and the nesting level shows only in the indentation, two spaces a level.
\<close>

theorem mapping_heading_is_level_three:
  "dict_to_markdown (PyDict (before @ (key, value) # after)) level
     = dict_to_markdown (PyDict before) level
       @ indent level @ ''### '' @ key @ [nl, nl] @ entry_body value level
       @ dict_to_markdown (PyDict after) level
   \<and> indent level = replicate (2 * level) CHR '' ''"
  using dict_entry_split [of before key "value" after level] indent_replicate [of level]
  by simp

text \<open>
  The keys \<^verbatim>\<open>a\<close> at depth 0 and \<^verbatim>\<open>b\<close> at depth 1 of \<^verbatim>\<open>{"a": {"b": 1}}\<close> get the same heading
  marker.
\<close>

theorem nested_keys_same_heading_level:
  "dict_to_markdown (PyDict [(''a'', PyDict [(''b'', Scalar (PyInt 1))])]) 0
     = ''### a'' @ [nl, nl] @ ''  ### b'' @ [nl, nl] @ fence @ [nl] @ ''1'' @ [nl] @ fence @ [nl, nl]
   \<and> heading_marks (dict_to_markdown (PyDict [(''a'', PyDict [(''b'', Scalar (PyInt 1))])]) 0)
     = [''###'', ''###'']"
  by (simp add: heading_marks_def indent_def digits.simps digit_char_def)

subsection \<open>Lists\<close>

text \<open>
  C4, as the code has it. A list is rendered element by element, in order, and closed
  by an empty line. A scalar element is one bullet line with its text. An element that
  is a mapping or a list is rendered by the recursive call at the same level, with no
  bullet of its own and no deeper indentation. The list \<^verbatim>\<open>["a", "b"]\<close> gives the two
  bullets \<^verbatim>\<open>- a\<close> and \<^verbatim>\<open>- b\<close>.
\<close>

theorem sequence_rendering:
  "dict_to_markdown (PyList xs) level = concat (map (\<lambda>item. list_item item level) xs) @ [nl]
   \<and> list_item (Scalar v) level = indent level @ ''- '' @ py_str v @ [nl]
   \<and> list_item (PyList ys) level = dict_to_markdown (PyList ys) level
   \<and> list_item (PyDict d) level = dict_to_markdown (PyDict d) level
   \<and> dict_to_markdown (PyList [Scalar (PyStr ''a''), Scalar (PyStr ''b'')]) 0
       = ''- a'' @ [nl] @ ''- b'' @ [nl, nl]"
  by (simp add: list_loop_concat list_item_def indent_def)

text \<open>
  The list \<^verbatim>\<open>[["a", "b"]]\<close> has one element and renders two bullets, neither indented:
  the text of the inner list at level 0, and one more newline.
\<close>

theorem nested_sequence_not_indented:
  "dict_to_markdown (PyList [PyList [Scalar (PyStr ''a''), Scalar (PyStr ''b'')]]) 0
     = ''- a'' @ [nl] @ ''- b'' @ [nl, nl, nl]
   \<and> dict_to_markdown (PyList [PyList [Scalar (PyStr ''a''), Scalar (PyStr ''b'')]]) 0
     = dict_to_markdown (PyList [Scalar (PyStr ''a''), Scalar (PyStr ''b'')]) 0 @ [nl]"
  by (simp add: indent_def)

subsection \<open>Scalars under a key\<close>

text \<open>
  C5, as the code has it. A scalar under a key of a mapping is written as it is when it
  is a string that contains one of \<^verbatim>\<open>###\<close>, \<^verbatim>\<open>##\<close>, \<^verbatim>\<open>#\<close>, \<^verbatim>\<open>**\<close> and \<^verbatim>\<open>-\<close>, and between
  code fences otherwise: the test is made on strings only, so \<^verbatim>\<open>None\<close>, a boolean and a
  number are always fenced. In \<^verbatim>\<open>{"metrics": {"accuracy": 0.9, "notes": "**done**"}}\<close> the
  value \<^verbatim>\<open>0.9\<close> is fenced and \<^verbatim>\<open>**done**\<close> is not.
\<close>

theorem scalar_entry_rendering:
  "dict_to_markdown (PyDict (before @ (key, Scalar v) # after)) level
     = dict_to_markdown (PyDict before) level
       @ indent level @ ''### '' @ key @ [nl, nl]
       @ (if contains_markdown v then py_str v @ [nl, nl]
          else fence @ [nl] @ py_str v @ [nl] @ fence @ [nl, nl])
       @ dict_to_markdown (PyDict after) level
   \<and> contains_markdown (PyStr s)
       = (str_in ''###'' s \<or> str_in ''##'' s \<or> str_in ''#'' s \<or> str_in ''**'' s \<or> str_in ''-'' s)
   \<and> \<not> contains_markdown PyNone
   \<and> \<not> contains_markdown (PyBool b)
   \<and> \<not> contains_markdown (PyInt i)
   \<and> \<not> contains_markdown (PyFloat r)
   \<and> dict_to_markdown
         (PyDict [(''metrics'', PyDict [(''accuracy'', Scalar (PyFloat ''0.9'')),
                                        (''notes'', Scalar (PyStr ''**done**''))])]) 0
       = ''### metrics'' @ [nl, nl]
         @ ''  ### accuracy'' @ [nl, nl] @ fence @ [nl] @ ''0.9'' @ [nl] @ fence @ [nl, nl]
         @ ''  ### notes'' @ [nl, nl] @ ''**done**'' @ [nl, nl]"
proof -
  have "entry_body (Scalar v) level
      = (if contains_markdown v then py_str v @ [nl, nl]
         else fence @ [nl] @ py_str v @ [nl] @ fence @ [nl, nl])"
    by (simp add: entry_body_def)
  then have "dict_to_markdown (PyDict (before @ (key, Scalar v) # after)) level
     = dict_to_markdown (PyDict before) level
       @ indent level @ ''### '' @ key @ [nl, nl]
       @ (if contains_markdown v then py_str v @ [nl, nl]
          else fence @ [nl] @ py_str v @ [nl] @ fence @ [nl, nl])
       @ dict_to_markdown (PyDict after) level"
    using dict_entry_split [of before key "Scalar v" after level] by simp
  moreover have "dict_to_markdown
         (PyDict [(''metrics'', PyDict [(''accuracy'', Scalar (PyFloat ''0.9'')),
                                        (''notes'', Scalar (PyStr ''**done**''))])]) 0
       = ''### metrics'' @ [nl, nl]
         @ ''  ### accuracy'' @ [nl, nl] @ fence @ [nl] @ ''0.9'' @ [nl] @ fence @ [nl, nl]
         @ ''  ### notes'' @ [nl, nl] @ ''**done**'' @ [nl, nl]"
    by (simp add: indent_def)
  ultimately show ?thesis by simp
qed

text \<open>
  The text of the number \<^verbatim>\<open>-5\<close> contains the marker \<^verbatim>\<open>-\<close>, and the value is fenced all
  the same.
\<close>

theorem negative_number_is_fenced:
  "str_in ''-'' (py_str (PyInt (- 5)))
   \<and> dict_to_markdown (PyDict [(''k'', Scalar (PyInt (- 5)))]) 0
     = ''### k'' @ [nl, nl] @ fence @ [nl] @ ''-5'' @ [nl] @ fence @ [nl, nl]"
  by (simp add: indent_def digits.simps digit_char_def)

section \<open>Properties of the focus areas\<close>

lemma str_split_not_Nil: "str_split sep s \<noteq> []"
  by (induction s) (auto split: list.splits)

lemma length_str_split: "length (str_split sep s) = Suc (count_list s sep)"
  using str_split_not_Nil [of sep]
  by (induction s) (auto split: list.splits)

lemma str_join_split: "str_join sep (str_split sep s) = s"
proof (induction s)
  case Nil
  show ?case by simp
next
  case (Cons c cs)
  obtain w ws where ws: "str_split sep cs = w # ws"
    using str_split_not_Nil [of sep cs] by (cases "str_split sep cs") auto
  show ?case using Cons ws by (cases ws) auto
qed

lemma str_split_no_sep: "list_all (\<lambda>w. sep \<notin> set w) (str_split sep s)"
  by (induction s) (auto split: list.splits)

lemma dropWhile_hd: "dropWhile P xs = [] \<or> \<not> P (hd (dropWhile P xs))"
  by (induction xs) auto

lemma strip_ends:
  "strip w = [] \<or> (\<not> is_space (hd (strip w)) \<and> \<not> is_space (last (strip w)))"
proof (cases "strip w = []")
  case True
  then show ?thesis by simp
next
  case False
  let ?a = "dropWhile is_space w"
  let ?b = "dropWhile is_space (rev ?a)"
  from False have b: "?b \<noteq> []" by (simp add: strip_def)
  then have lastb: "\<not> is_space (hd ?b)"
    using dropWhile_hd [of is_space "rev ?a"] by blast
  have l: "last (strip w) = hd ?b" using b by (simp add: strip_def last_rev)
  have a: "?a \<noteq> []"
  proof
    assume "?a = []"
    then have "?b = []" by (simp only: rev.simps(1) dropWhile.simps(1))
    with b show False by blast
  qed
  then have hda: "\<not> is_space (hd ?a)"
    using dropWhile_hd [of is_space w] by blast
  have "\<exists>ys. rev ?a = ys @ ?b" by (metis takeWhile_dropWhile_id)
  then obtain ys where "rev ?a = ys @ ?b" by blast
  then have "?a = rev ?b @ rev ys" by (metis rev_append rev_rev_ident)
  then have "hd ?a = hd (rev ?b)" using b by (metis hd_append2 rev_is_Nil_conv)
  then have "hd (strip w) = hd ?a" by (simp add: strip_def)
  then show ?thesis using hda lastb l by simp
qed

lemma strip_decomp:
  "\<exists>a b. w = a @ strip w @ b \<and> list_all is_space a \<and> list_all is_space b"
proof -
  let ?a = "takeWhile is_space w"
  let ?r = "dropWhile is_space w"
  let ?b = "rev (takeWhile is_space (rev ?r))"
  have "?r = rev (rev ?r)" by simp
  also have "\<dots> = rev (takeWhile is_space (rev ?r) @ dropWhile is_space (rev ?r))"
    by (simp only: takeWhile_dropWhile_id)
  also have "\<dots> = rev (dropWhile is_space (rev ?r)) @ rev (takeWhile is_space (rev ?r))"
    by (rule rev_append)
  finally have r: "?r = strip w @ ?b" by (simp only: strip_def)
  have "w = ?a @ ?r" by simp
  then have w: "w = ?a @ strip w @ ?b" using r by simp
  have a: "list_all is_space ?a" by (simp add: list_all_iff) (meson set_takeWhileD)
  have b: "list_all is_space ?b" by (simp add: list_all_iff) (meson set_takeWhileD)
  from w a b show ?thesis by blast
qed

lemma parse_stripped:
  "list_all (\<lambda>w. w = [] \<or> (\<not> is_space (hd w) \<and> \<not> is_space (last w))) (parse_focus_areas s)"
  by (simp add: parse_focus_areas_def list_all_iff strip_ends)

lemma parse_segments:
  "list_all2 (\<lambda>segment area. \<exists>a b. segment = a @ area @ b \<and> list_all is_space a \<and> list_all is_space b)
     (str_split CHR '','' s) (parse_focus_areas s)"
  by (simp add: parse_focus_areas_def list_all2_map2 list_all2_same strip_decomp)

text \<open>
  C9, as the code has it. The focus areas handed to the laboratory are the segments of
  the input between its commas, each stripped of the whitespace around it, and every
  segment is kept, the empty ones too: there is one entry more than the input has
  commas, the segments joined by commas give the input back, no segment has a comma,
  every entry is its segment without a run of whitespace at its start and one at its
  end, and an entry that is not empty neither starts nor ends with whitespace.
\<close>

theorem parse_focus_areas_keeps_empty_entries:
  "parse_focus_areas s = map strip (str_split CHR '','' s)
   \<and> length (parse_focus_areas s) = Suc (count_list s CHR '','')
   \<and> str_join CHR '','' (str_split CHR '','' s) = s
   \<and> list_all (\<lambda>w. CHR '','' \<notin> set w) (str_split CHR '','' s)
   \<and> list_all2 (\<lambda>segment area. \<exists>a b. segment = a @ area @ b \<and> list_all is_space a \<and> list_all is_space b)
        (str_split CHR '','' s) (parse_focus_areas s)
   \<and> list_all (\<lambda>w. w = [] \<or> (\<not> is_space (hd w) \<and> \<not> is_space (last w))) (parse_focus_areas s)"
  using parse_stripped [of s] parse_segments [of s]
  by (simp add: parse_focus_areas_def length_str_split str_join_split str_split_no_sep)

text \<open>The input \<^verbatim>\<open>a,,b,\<close> gives four entries, two of them empty.\<close>

theorem focus_areas_trailing_commas:
  "parse_focus_areas ''a,,b,'' = [''a'', '''', ''b'', '''']"
  by (simp add: parse_focus_areas_def strip_def is_space_def)

text \<open>
  A segment of a no-break space and a next line is whitespace only, and its entry is
  empty; the space and the tab around \<^verbatim>\<open>b\<close> are removed.
\<close>

lemma focus_areas_no_break_space:
  "parse_focus_areas (''a,'' @ [CHR 0xA0, CHR 0x85] @ '', b '' @ [CHR 0x09]) = [''a'', '''', ''b'']"
  by (simp add: parse_focus_areas_def strip_def is_space_def)

section \<open>Properties of the store and the session\<close>

subsection \<open>Assignment to a dict\<close>

lemma keys_dict_set:
  "keys (dict_set d k v) = (if k \<in> set (keys d) then keys d else keys d @ [k])"
  by (induction d) (force simp: keys_def)+

lemma map_of_dict_set: "map_of (dict_set d k v) = (map_of d)(k \<mapsto> v)"
  by (induction d) (auto simp: fun_eq_iff)

lemma length_dict_set:
  "length (dict_set d k v) = (if k \<in> set (keys d) then length d else Suc (length d))"
  by (induction d) (force simp: keys_def)+

lemma strftime_microsecond: "strftime (now\<lparr>microsecond := us\<rparr>) = strftime now"
  by (simp add: strftime_def)

lemma strftime_noon: "strftime noon = ''2024-05-17 12:00:00''"
  by (simp add: strftime_def noon_def zero_pad_def digits.simps digit_char_def)

lemma strftime_noon_later: "strftime (noon\<lparr>microsecond := 900000\<rparr>) = ''2024-05-17 12:00:00''"
  by (simp add: strftime_microsecond strftime_noon)

lemma conduct_research_ok:
  assumes "api_key s = Some key" and "key \<noteq> []" and "lab key tp (task_notes fa) = Inr res"
  shows "research_results (fst (conduct_research lab now s tp fa))
           = dict_set (research_results s) (strftime now)
               \<lparr>topic = tp, focus_areas = fa, results = res\<rparr>"
  using assms by (simp add: conduct_research_def Let_def)

subsection \<open>Identifiers\<close>

text \<open>
  C1, as the code has it. The identifier of a research is the time of its insertion,
  to the second, and nothing is added to it. A successful \<open>conduct_research\<close> stores
  the new research under that timestamp: when no research has it yet, the keys grow by
  this one, at the end; when one has it, the keys and the size of the store stay as
  they are and the new research takes the place of the old one. The keys stay
  distinct. Two clock readings that differ in their microseconds only give the same
  identifier.
\<close>

theorem conduct_research_store_keys:
  assumes "api_key s = Some key" and "key \<noteq> []" and "lab key tp (task_notes fa) = Inr res"
  shows "keys (research_results (fst (conduct_research lab now s tp fa)))
           = (if strftime now \<in> set (keys (research_results s))
              then keys (research_results s)
              else keys (research_results s) @ [strftime now])
       \<and> length (research_results (fst (conduct_research lab now s tp fa)))
           = (if strftime now \<in> set (keys (research_results s))
              then length (research_results s)
              else Suc (length (research_results s)))
       \<and> map_of (research_results (fst (conduct_research lab now s tp fa))) (strftime now)
           = Some \<lparr>topic = tp, focus_areas = fa, results = res\<rparr>
       \<and> distinct (keys (research_results (fst (conduct_research lab now s tp fa))))
           = distinct (keys (research_results s))
       \<and> strftime (now\<lparr>microsecond := us\<rparr>) = strftime now"
proof -
  have "research_results (fst (conduct_research lab now s tp fa))
      = dict_set (research_results s) (strftime now) \<lparr>topic = tp, focus_areas = fa, results = res\<rparr>"
    using assms by (rule conduct_research_ok)
  then show ?thesis
    by (simp add: keys_dict_set length_dict_set map_of_dict_set strftime_microsecond)
qed

theorem conduct_research_store_keys_witness:
  "api_key session0 = Some ''sk-test''
   \<and> keys (research_results (fst (conduct_research lab_ok noon session0 ''first'' ''a'')))
       = [''2024-05-17 12:00:00'']
   \<and> length (research_results (fst (conduct_research lab_ok noon session0 ''first'' ''a''))) = 1"
  using conduct_research_store_keys [of session0 "''sk-test''" lab_ok "''first''" "''a''"
      "PyDict [(''summary'', Scalar (PyStr ''first''))]" noon 0]
  by (simp add: session0_def lab_ok_def strftime_noon keys_def)

text \<open>
  Two researches conducted within the same second, the second one 0.9 seconds after
  the first: the store holds one identifier, and the first research is gone.
\<close>

theorem same_second_insert_overwrites:
  "keys (research_results (fst (conduct_research lab_ok (noon\<lparr>microsecond := 900000\<rparr>)
           (fst (conduct_research lab_ok noon session0 ''first'' ''a'')) ''second'' ''b'')))
     = [''2024-05-17 12:00:00'']
   \<and> map (topic \<circ> snd)
         (research_results (fst (conduct_research lab_ok (noon\<lparr>microsecond := 900000\<rparr>)
           (fst (conduct_research lab_ok noon session0 ''first'' ''a'')) ''second'' ''b'')))
     = [''second'']"
  by (simp add: conduct_research_def session0_def lab_ok_def Let_def strftime_noon
      strftime_noon_later keys_def)

subsection \<open>Looking up the selected research\<close>

text \<open>
  The sidebar and \<open>conduct_research\<close> select stored researches only, so in a session
  whose selected research is stored the main area raises nothing.
\<close>

lemma sidebar_loop_results:
  "research_results (sidebar_loop clicked d s) = research_results s"
  by (induction d arbitrary: s) auto

lemma sidebar_loop_selected:
  "selected_research (sidebar_loop clicked d s) = selected_research s
   \<or> (\<exists>ts. ts \<in> set (keys d) \<and> selected_research (sidebar_loop clicked d s) = Some ts)"
proof (induction d arbitrary: s)
  case Nil
  show ?case by simp
next
  case (Cons p d)
  obtain timestamp research where p: "p = (timestamp, research)" by (cases p)
  let ?s' = "if clicked = ResearchButton timestamp
             then s\<lparr>current_view := Some view_research, selected_research := Some timestamp\<rparr>
             else s"
  have step: "sidebar_loop clicked (p # d) s = sidebar_loop clicked d ?s'"
    by (simp add: p)
  from Cons [of ?s'] show ?case
    unfolding step by (auto simp: keys_def p)
qed

lemma sidebar_selected_stored:
  assumes "selected_stored s"
  shows "selected_stored (sidebar api_key_input clicked s)"
proof -
  let ?s1 = "if api_key_input \<noteq> [] then s\<lparr>api_key := Some api_key_input\<rparr> else s"
  let ?s2 = "if clicked = NewResearchButton then ?s1\<lparr>current_view := Some new_research\<rparr> else ?s1"
  have s2: "selected_stored ?s2"
    using assms by (auto simp: selected_stored_def split: option.splits)
  show ?thesis
  proof (cases "research_results ?s2 = []")
    case True
    then have "sidebar api_key_input clicked s = ?s2" by (simp add: sidebar_def Let_def)
    then show ?thesis using s2 by simp
  next
    case False
    then have eq: "sidebar api_key_input clicked s = sidebar_loop clicked (research_results ?s2) ?s2"
      by (simp add: sidebar_def Let_def)
    have res: "research_results (sidebar_loop clicked (research_results ?s2) ?s2) = research_results ?s2"
      by (rule sidebar_loop_results)
    from sidebar_loop_selected [of clicked "research_results ?s2" ?s2]
    show ?thesis
      unfolding eq using s2 res
      by (auto simp: selected_stored_def split: option.splits)
  qed
qed

lemma conduct_research_selected_stored:
  assumes "selected_stored s"
  shows "selected_stored (fst (conduct_research lab now s tp fa))"
  using assms
  by (auto simp: conduct_research_def selected_stored_def Let_def keys_dict_set
      split: option.splits sum.splits)

lemma main_area_selected_stored:
  assumes "selected_stored s"
  shows "\<exists>p. snd (main_area s) = Inr p"
proof (cases "selected_research s")
  case None
  then show ?thesis by (simp add: main_area_def Let_def)
next
  case (Some ts)
  with assms have "ts \<in> set (keys (research_results s))" by (simp add: selected_stored_def)
  then have "map_of (research_results s) ts \<noteq> None"
    by (simp add: keys_def map_of_eq_None_iff)
  then obtain r where "map_of (research_results s) ts = Some r" by blast
  then show ?thesis using Some by (simp add: main_area_def Let_def)
qed



subsection \<open>Loading\<close>




subsection \<open>The missing API key\<close>

text \<open>
  C8. With no API key, or an empty one, \<open>conduct_research\<close> returns
  \<^verbatim>\<open>(False, "API key required")\<close> for every topic and every focus areas: the session,
  and with it the store and the view, is returned as it was, and the only event is the
  error message, so the laboratory is not called and nothing is saved.
\<close>

theorem conduct_research_missing_credential:
  assumes "api_key s = None \<or> api_key s = Some []"
  shows "conduct_research lab now s tp fa
     = (s, Returned False ''API key required'',
        [StError ''Please enter your OpenAI API key in the sidebar first!''])"
  using assms by (auto simp: conduct_research_def)

theorem conduct_research_missing_credential_witness:
  "api_key (session0\<lparr>api_key := Some []\<rparr>) = Some []
   \<and> conduct_research lab_ok noon (session0\<lparr>api_key := Some []\<rparr>) ''topic'' ''a,b''
     = (session0\<lparr>api_key := Some []\<rparr>, Returned False ''API key required'',
        [StError ''Please enter your OpenAI API key in the sidebar first!''])"
  using conduct_research_missing_credential
    [of "session0\<lparr>api_key := Some []\<rparr>" lab_ok noon "''topic''" "''a,b''"]
  by simp

end
